theory Spec2Isabelle
  imports
    Complex_Main
    "HOL-Library.Char_ord"
    "HOL-Library.List_Lexorder"
    "HOL-Library.Sublist"
begin

section \<open>Strings\<close>

text \<open>
  A JavaScript string is a sequence of UTF-16 code units. The embedding takes the strings
  whose code units lie in U+0000 .. U+00FF, one \<^typ>\<open>char\<close> per code unit. On these
  strings \<^verbatim>\<open>toLowerCase\<close> works unit by unit (the letters A-Z, and the Latin-1
  capitals U+00C0 .. U+00DE except the multiplication sign U+00D7, move up by 32),
  \<^verbatim>\<open>trim\<close> removes the white space and line terminators of that range, and
  the default order of \<^verbatim>\<open>sort\<close> (by code unit) is the lexicographic order of
  \<^typ>\<open>string\<close>.
\<close>

definition toLowerCase_char :: "char \<Rightarrow> char" where
  "toLowerCase_char c =
     (let n = (of_char c :: int)
      in if (65 \<le> n \<and> n \<le> 90) \<or> (192 \<le> n \<and> n \<le> 222 \<and> n \<noteq> 215)
         then char_of (n + 32) else c)"

definition toLowerCase :: "string \<Rightarrow> string" where
  "toLowerCase s = map toLowerCase_char s"

definition is_space :: "char \<Rightarrow> bool" where
  "is_space c = ((of_char c :: nat) \<in> {9, 10, 11, 12, 13, 32, 160})"

definition trim :: "string \<Rightarrow> string" where
  "trim s = rev (dropWhile is_space (rev (dropWhile is_space s)))"

text \<open>\<^verbatim>\<open>s.includes(t)\<close>: \<open>t\<close> occurs in \<open>s\<close> as a contiguous run.\<close>

fun str_includes :: "string \<Rightarrow> string \<Rightarrow> bool" where
  "str_includes [] t = (t = [])"
| "str_includes (c # cs) t = (prefix t (c # cs) \<or> str_includes cs t)"

section \<open>The name normalizer\<close>

text \<open>
  \<^verbatim>\<open>name.replace(/\:[^>]*\)/ig, "").replace(/(\(Id)/ig, "").trim()\<close>

  The first pattern is a colon, a greedy run of characters other than \<open>>\<close>, and a closing
  parenthesis. \<open>star_close cs\<close> matches \<^verbatim>\<open>[^>]*\)\<close> at the start of \<open>cs\<close> the way the
  backtracking matcher does: the star first takes one more character when it may, and only
  when the rest then fails does it stop and ask for the parenthesis here. It returns the text
  after the match. The flag \<^verbatim>\<open>i\<close> changes nothing for this pattern, whose characters
  have no letter case.
\<close>

fun star_close :: "string \<Rightarrow> string option" where
  "star_close [] = None"
| "star_close (c # cs) =
     (if c = CHR ''>'' then None
      else (case star_close cs of
              Some r \<Rightarrow> Some r
            | None \<Rightarrow> if c = CHR '')'' then Some cs else None))"

lemma star_close_length: "star_close cs = Some r \<Longrightarrow> length r < length cs"
proof (induction cs arbitrary: r)
  case Nil
  then show ?case by simp
next
  case (Cons c cs)
  then show ?case
    by (fastforce split: if_splits option.splits)
qed

text \<open>
  The global replacement scans from the left: at a colon where the pattern matches, the
  match is dropped and the scan goes on after it; anywhere else the character is kept.
\<close>

function strip_annotation :: "string \<Rightarrow> string" where
  "strip_annotation [] = []"
| "strip_annotation (c # cs) =
     (if c = CHR '':'' then
        (case star_close cs of
           Some r \<Rightarrow> strip_annotation r
         | None \<Rightarrow> c # strip_annotation cs)
      else c # strip_annotation cs)"
  by pat_completeness auto
termination
  by (relation "measure length") (auto dest: star_close_length)

text \<open>
  The second pattern is the three characters \<^verbatim>\<open>(Id\<close>, the letters in either case
  (flag \<^verbatim>\<open>i\<close>); no other code unit up to U+00FF folds to \<open>I\<close> or \<open>D\<close>.
\<close>

definition is_id_marker :: "char \<Rightarrow> char \<Rightarrow> char \<Rightarrow> bool" where
  "is_id_marker a b c =
     (a = CHR ''('' \<and> (b = CHR ''I'' \<or> b = CHR ''i'') \<and> (c = CHR ''d'' \<or> c = CHR ''D''))"

fun strip_id :: "string \<Rightarrow> string" where
  "strip_id (a # b # c # cs) =
     (if is_id_marker a b c then strip_id cs else a # strip_id (b # c # cs))"
| "strip_id cs = cs"

definition cleanCollegeName :: "string \<Rightarrow> string" where
  "cleanCollegeName name = trim (strip_id (strip_annotation name))"

text \<open>
  Whether a pattern matches somewhere in a string (\<^verbatim>\<open>RegExp.prototype.test\<close>), for
  stating what the normalizer does.
\<close>

fun annotation_present :: "string \<Rightarrow> bool" where
  "annotation_present [] = False"
| "annotation_present (c # cs) =
     ((c = CHR '':'' \<and> star_close cs \<noteq> None) \<or> annotation_present cs)"

fun marker_present :: "string \<Rightarrow> bool" where
  "marker_present (a # b # c # cs) = (is_id_marker a b c \<or> marker_present (b # c # cs))"
| "marker_present cs = False"

text \<open>
  Only colons, closing parentheses and \<open>>\<close> decide whether the first pattern matches; the
  skeleton of a string keeps these three characters and drops the rest.
\<close>

definition skeleton :: "string \<Rightarrow> string" where
  "skeleton s = filter (\<lambda>c. c = CHR '':'' \<or> c = CHR '')'' \<or> c = CHR ''>'') s"

section \<open>Records and the query engine\<close>

text \<open>
  A row of the CSV file: the three columns the handlers read, and the remaining columns as
  they come. The dataset is the array \<^verbatim>\<open>colleges\<close>, a list of rows in file order.
\<close>

record college =
  name :: string
  state :: string
  district :: string
  columns :: "(string \<times> string) list"

text \<open>
  \<^verbatim>\<open>{ ...college, name: cleanCollegeName(college.name) }\<close>: a new object with the
  fields of the row and the normalized name.
\<close>

definition clean_copy :: "college \<Rightarrow> college" where
  "clean_copy college = college\<lparr>name := cleanCollegeName (name college)\<rparr>"

text \<open>
  The three filters (\<^verbatim>\<open>colleges.filter(...).map(...)\<close>) of the routes
  \<^verbatim>\<open>/colleges/search\<close>, \<^verbatim>\<open>/colleges/state/:state\<close> and
  \<^verbatim>\<open>/colleges/district/:district\<close>.
\<close>

definition search_result :: "college list \<Rightarrow> string \<Rightarrow> college list" where
  "search_result colleges keyword =
     map clean_copy
       (filter (\<lambda>college. str_includes (toLowerCase (name college)) (toLowerCase keyword))
          colleges)"

definition state_result :: "college list \<Rightarrow> string \<Rightarrow> college list" where
  "state_result colleges st =
     map clean_copy (filter (\<lambda>college. toLowerCase (state college) = toLowerCase st) colleges)"

definition district_result :: "college list \<Rightarrow> string \<Rightarrow> college list" where
  "district_result colleges d =
     map clean_copy (filter (\<lambda>college. toLowerCase (district college) = toLowerCase d) colleges)"

text \<open>
  \<^verbatim>\<open>[...new Set(values)].sort()\<close>. A \<^verbatim>\<open>Set\<close> keeps its members in insertion
  order, \<^verbatim>\<open>add\<close> ignores a value that is already a member, and \<^verbatim>\<open>sort\<close> without
  a comparison function orders strings by code units.
\<close>

definition set_add :: "'a list \<Rightarrow> 'a \<Rightarrow> 'a list" where
  "set_add s x = (if x \<in> set s then s else s @ [x])"

definition new_Set :: "'a list \<Rightarrow> 'a list" where
  "new_Set xs = foldl set_add [] xs"

definition allstates :: "college list \<Rightarrow> string list" where
  "allstates colleges = sort (new_Set (map state colleges))"

definition districts :: "college list \<Rightarrow> string \<Rightarrow> string list" where
  "districts colleges st =
     sort (new_Set (map district
       (filter (\<lambda>college. toLowerCase (state college) = toLowerCase st) colleges)))"

section \<open>Numbers and request values\<close>

text \<open>
  The numbers that occur here are integers, \<^verbatim>\<open>NaN\<close> and the two infinities; integers
  are exact up to \<open>2\<^sup>5\<^sup>3\<close>, which no array length reaches, and the sign of zero is not
  kept. A value of a request is a string or a number: a JSON body holds both, a query string
  holds strings only.
\<close>

datatype jsnum = Fin int | NaN | PosInfinity | NegInfinity

datatype jsval = Str string | Num jsnum

text \<open>
  \<^verbatim>\<open>String(x)\<close>, as a template literal applies it: an integer is written in decimal
  digits (the language does so below \<open>10\<^sup>2\<^sup>1\<close>).
\<close>

definition digit_char :: "nat \<Rightarrow> char" where
  "digit_char d = char_of (48 + int d)"

function show_nat :: "nat \<Rightarrow> string" where
  "show_nat n = (if n < 10 then [digit_char n] else show_nat (n div 10) @ [digit_char (n mod 10)])"
  by pat_completeness auto
termination
  by (relation "measure id") auto

declare show_nat.simps [simp del]

definition number_to_string :: "jsnum \<Rightarrow> string" where
  "number_to_string x =
     (case x of
        Fin i \<Rightarrow> if i < 0 then CHR ''-'' # show_nat (nat (- i)) else show_nat (nat i)
      | NaN \<Rightarrow> ''NaN''
      | PosInfinity \<Rightarrow> ''Infinity''
      | NegInfinity \<Rightarrow> ''-Infinity'')"

definition ToString :: "jsval \<Rightarrow> string" where
  "ToString v = (case v of Str s \<Rightarrow> s | Num x \<Rightarrow> number_to_string x)"

text \<open>
  \<^verbatim>\<open>Number(x)\<close>, as the arithmetic operators apply it. For a string: white space
  around it is dropped, the empty string is 0, a decimal integer with an optional sign is
  its value, and a string that is no numeric literal is \<^verbatim>\<open>NaN\<close>. The other numeric
  literals of the language (a fraction, an exponent, a radix prefix, the word
  \<^verbatim>\<open>Infinity\<close>) are outside the strings this embedding takes as input.
\<close>

definition is_digit :: "char \<Rightarrow> bool" where
  "is_digit c = (48 \<le> (of_char c :: nat) \<and> (of_char c :: nat) \<le> 57)"

definition digits_value :: "string \<Rightarrow> nat" where
  "digits_value s = foldl (\<lambda>a c. 10 * a + (of_char c - 48)) 0 s"

definition all_digits :: "string \<Rightarrow> bool" where
  "all_digits s = (s \<noteq> [] \<and> list_all is_digit s)"

fun parse_int :: "string \<Rightarrow> int option" where
  "parse_int [] = None"
| "parse_int (c # cs) =
     (if c = CHR ''-'' then (if all_digits cs then Some (- int (digits_value cs)) else None)
      else if c = CHR ''+'' then (if all_digits cs then Some (int (digits_value cs)) else None)
      else if all_digits (c # cs) then Some (int (digits_value (c # cs))) else None)"

definition string_to_number :: "string \<Rightarrow> jsnum" where
  "string_to_number s =
     (let t = trim s
      in if t = [] then Fin 0
         else (case parse_int t of Some i \<Rightarrow> Fin i | None \<Rightarrow> NaN))"

definition ToNumber :: "jsval \<Rightarrow> jsnum" where
  "ToNumber v = (case v of Num x \<Rightarrow> x | Str s \<Rightarrow> string_to_number s)"

text \<open>Subtraction and multiplication of numbers.\<close>

definition signed_infinity :: "bool \<Rightarrow> jsnum" where
  "signed_infinity positive = (if positive then PosInfinity else NegInfinity)"

fun js_minus :: "jsnum \<Rightarrow> jsnum \<Rightarrow> jsnum" where
  "js_minus (Fin a) (Fin b) = Fin (a - b)"
| "js_minus (Fin a) PosInfinity = NegInfinity"
| "js_minus (Fin a) NegInfinity = PosInfinity"
| "js_minus PosInfinity (Fin b) = PosInfinity"
| "js_minus PosInfinity NegInfinity = PosInfinity"
| "js_minus NegInfinity (Fin b) = NegInfinity"
| "js_minus NegInfinity PosInfinity = NegInfinity"
| "js_minus a b = NaN"

fun js_times :: "jsnum \<Rightarrow> jsnum \<Rightarrow> jsnum" where
  "js_times (Fin a) (Fin b) = Fin (a * b)"
| "js_times (Fin a) PosInfinity = (if a = 0 then NaN else signed_infinity (0 < a))"
| "js_times (Fin a) NegInfinity = (if a = 0 then NaN else signed_infinity (a < 0))"
| "js_times PosInfinity (Fin b) = (if b = 0 then NaN else signed_infinity (0 < b))"
| "js_times NegInfinity (Fin b) = (if b = 0 then NaN else signed_infinity (b < 0))"
| "js_times PosInfinity PosInfinity = PosInfinity"
| "js_times PosInfinity NegInfinity = NegInfinity"
| "js_times NegInfinity PosInfinity = NegInfinity"
| "js_times NegInfinity NegInfinity = PosInfinity"
| "js_times a b = NaN"

text \<open>
  \<^verbatim>\<open>Math.ceil(n / d)\<close> for an array length \<open>n\<close>: a length over zero is
  \<^verbatim>\<open>Infinity\<close>, zero over zero is \<^verbatim>\<open>NaN\<close>, and a length over an infinity is zero.
\<close>

definition math_ceil_div :: "nat \<Rightarrow> jsnum \<Rightarrow> jsnum" where
  "math_ceil_div n d =
     (case d of
        Fin l \<Rightarrow> if l = 0 then (if n = 0 then NaN else PosInfinity)
                 else Fin \<lceil>real n / real_of_int l\<rceil>
      | NaN \<Rightarrow> NaN
      | PosInfinity \<Rightarrow> Fin 0
      | NegInfinity \<Rightarrow> Fin 0)"

text \<open>
  \<^verbatim>\<open>xs.slice(start, end)\<close>. Each bound becomes an index of the array: \<^verbatim>\<open>NaN\<close>
  counts as 0, a negative bound counts from the end, and the result is clamped to
  \<open>0 .. length xs\<close>. The slice holds the elements from the first index up to, and without,
  the second; it is empty when the second is not beyond the first.
\<close>

definition relative_index :: "nat \<Rightarrow> jsnum \<Rightarrow> nat" where
  "relative_index len x =
     (case x of
        Fin i \<Rightarrow> if i < 0 then nat (max (int len + i) 0) else min (nat i) len
      | NaN \<Rightarrow> 0
      | PosInfinity \<Rightarrow> len
      | NegInfinity \<Rightarrow> 0)"

definition slice :: "'a list \<Rightarrow> jsnum \<Rightarrow> jsnum \<Rightarrow> 'a list" where
  "slice xs start end =
     (let k = relative_index (length xs) start;
          final = relative_index (length xs) end
      in take (final - k) (drop k xs))"

text \<open>\<^verbatim>\<open>result.slice((page - 1) * limit, page * limit)\<close>\<close>

definition paginate :: "'a list \<Rightarrow> jsval \<Rightarrow> jsval \<Rightarrow> 'a list" where
  "paginate result page limit =
     slice result
       (js_times (js_minus (ToNumber page) (Fin 1)) (ToNumber limit))
       (js_times (ToNumber page) (ToNumber limit))"

section \<open>Responses\<close>

text \<open>
  The object that the three filtered routes answer with. They build it alike, but for the
  echo of \<^verbatim>\<open>page\<close> and \<^verbatim>\<open>limit\<close>: the search route echoes the values of
  the body as they are, the other two echo \<^verbatim>\<open>Number(page)\<close> and
  \<^verbatim>\<open>Number(limit)\<close>.
\<close>

record response =
  data :: "college list"
  page :: jsval
  limit :: jsval
  total :: nat
  totalPages :: jsnum

definition build_response ::
  "college list \<Rightarrow> jsval \<Rightarrow> jsval \<Rightarrow> jsval \<Rightarrow> jsval \<Rightarrow> response" where
  "build_response =
     (\<lambda>result page limit page_echo limit_echo.
        let paginatedResult = paginate result page limit
        in \<lparr>data = paginatedResult, page = page_echo, limit = limit_echo,
            total = length result,
            totalPages = math_ceil_div (length result) (ToNumber limit)\<rparr>)"

text \<open>
  What a route sends: a status and a body. The body is a text, the object
  \<^verbatim>\<open>{ total }\<close>, a page, an array of names, or the array of validation errors (the
  name of the checked field, once for each check that failed).
\<close>

datatype payload =
    Text string
  | Total nat
  | Page response
  | Names "string list"
  | Errors "string list"

datatype http = Http nat payload

section \<open>Requests and their validation\<close>

text \<open>
  A request carries the parsed JSON body, the query string and the route parameter. A
  field that is absent is \<^verbatim>\<open>undefined\<close>.
\<close>

record request =
  body :: "string \<rightharpoonup> jsval"
  query :: "string \<rightharpoonup> string"
  param :: string

text \<open>
  The checks are those of the validation library, which every chain here reads from the
  body (\<^verbatim>\<open>body('page')\<close>). A check is applied to the value as a string.
  \<^verbatim>\<open>isInt\<close> accepts a decimal integer with an optional sign that lies within the
  bounds; \<^verbatim>\<open>optional()\<close> skips the chain of an absent field.
\<close>

definition isInt :: "int option \<Rightarrow> int option \<Rightarrow> string \<Rightarrow> bool" where
  "isInt lo hi str =
     (case parse_int str of
        None \<Rightarrow> False
      | Some i \<Rightarrow> (case lo of None \<Rightarrow> True | Some m \<Rightarrow> m \<le> i)
                 \<and> (case hi of None \<Rightarrow> True | Some m \<Rightarrow> i \<le> m))"

definition optional_isInt ::
  "string \<Rightarrow> int option \<Rightarrow> int option \<Rightarrow> request \<Rightarrow> string list" where
  "optional_isInt field lo hi req =
     (case body req field of
        None \<Rightarrow> []
      | Some v \<Rightarrow> if isInt lo hi (ToString v) then [] else [field])"

text \<open>
  \<^verbatim>\<open>body('keyword').isString().trim().notEmpty()\<close>: the value must be a string; it
  is replaced in the body by its trimmed text; the trimmed text must not be empty.
\<close>

definition keyword_chain :: "request \<Rightarrow> string list \<times> request" where
  "keyword_chain req =
     (let v = body req ''keyword'';
          not_string = (case v of Some (Str s) \<Rightarrow> [] | _ \<Rightarrow> [''keyword'']);
          trimmed = trim (case v of None \<Rightarrow> [] | Some w \<Rightarrow> ToString w);
          empty = (if trimmed = [] then [''keyword''] else [])
      in (not_string @ empty, req\<lparr>body := (body req)(''keyword'' \<mapsto> Str trimmed)\<rparr>))"

section \<open>The response cache\<close>

text \<open>
  \<^verbatim>\<open>new NodeCache({ stdTTL: 600 })\<close>: an entry is stored with the time, in
  milliseconds, at which it expires, and \<^verbatim>\<open>get\<close> answers \<^verbatim>\<open>undefined\<close> for
  a key that is absent or whose time has passed. Every cached value here is an object or an
  array, which \<^verbatim>\<open>if (cachedResult)\<close> takes as true.
\<close>

type_synonym node_cache = "string \<rightharpoonup> payload \<times> nat"

definition stdTTL :: nat where
  "stdTTL = 600"

definition cache_get :: "node_cache \<Rightarrow> nat \<Rightarrow> string \<Rightarrow> payload option" where
  "cache_get c now key =
     (case c key of
        None \<Rightarrow> None
      | Some (v, t) \<Rightarrow> if t < now then None else Some v)"

definition cache_set :: "node_cache \<Rightarrow> nat \<Rightarrow> string \<Rightarrow> payload \<Rightarrow> node_cache" where
  "cache_set c now key v = c(key \<mapsto> (v, now + stdTTL * 1000))"

section \<open>The routes\<close>

text \<open>
  The state of the process: the array \<^verbatim>\<open>colleges\<close> and the cache. A handler takes
  the time of the request and the state, and returns what it sends and the new state. The
  middleware in front of the routes (security headers, rate limit, compression, request
  log) is not part of the embedding.
\<close>

record server =
  colleges :: "college list"
  cache :: node_cache

definition total_handler :: "server \<Rightarrow> http \<times> server" where
  "total_handler srv = (Http 200 (Total (length (colleges srv))), srv)"

text \<open>
  \<^verbatim>\<open>POST /colleges/search\<close>. After a validation without errors the keyword is a
  string; the last case stands for the \<^verbatim>\<open>TypeError\<close> that
  \<^verbatim>\<open>keyword.toLowerCase()\<close> would raise otherwise, which the error middleware
  answers.
\<close>

definition search_handler :: "nat \<Rightarrow> server \<Rightarrow> request \<Rightarrow> http \<times> server" where
  "search_handler now srv req0 =
     (let (errors1, req) = keyword_chain req0;
          errors = errors1 @ optional_isInt ''page'' (Some 1) None req
                     @ optional_isInt ''limit'' (Some 1) (Some 100) req
      in if errors \<noteq> [] then (Http 400 (Errors errors), srv)
         else
           (case body req ''keyword'' of
              Some (Str keyword) \<Rightarrow>
                (let page = (case body req ''page'' of None \<Rightarrow> Num (Fin 1) | Some v \<Rightarrow> v);
                     limit = (case body req ''limit'' of None \<Rightarrow> Num (Fin 10) | Some v \<Rightarrow> v);
                     cacheKey = ''search:'' @ keyword @ '':'' @ ToString page @ '':'' @ ToString limit
                 in (case cache_get (cache srv) now cacheKey of
                       Some cachedResult \<Rightarrow> (Http 200 cachedResult, srv)
                     | None \<Rightarrow>
                         (let result = search_result (colleges srv) keyword;
                              response = build_response result page limit page limit
                          in (Http 200 (Page response),
                              srv\<lparr>cache := cache_set (cache srv) now cacheKey (Page response)\<rparr>))))
            | _ \<Rightarrow> (Http 500 (Text ''Something broke!''), srv)))"

text \<open>
  \<^verbatim>\<open>GET /colleges/state/:state\<close> and \<^verbatim>\<open>GET /colleges/district/:district\<close>
  are the same code but for the tag of the cache key and the field that is compared. Their
  validation chains read \<^verbatim>\<open>page\<close> and \<^verbatim>\<open>limit\<close> from the body; the handler
  takes them from the query string.
\<close>

definition filtered_handler ::
  "string \<Rightarrow> (college list \<Rightarrow> string \<Rightarrow> college list) \<Rightarrow>
     nat \<Rightarrow> server \<Rightarrow> request \<Rightarrow> http \<times> server" where
  "filtered_handler tag filtered now srv req =
     (let errors = optional_isInt ''page'' (Some 1) None req
                     @ optional_isInt ''limit'' (Some 1) (Some 100) req
      in if errors \<noteq> [] then (Http 400 (Errors errors), srv)
         else
           (let value = param req;
                page = (case query req ''page'' of None \<Rightarrow> Num (Fin 1) | Some s \<Rightarrow> Str s);
                limit = (case query req ''limit'' of None \<Rightarrow> Num (Fin 10) | Some s \<Rightarrow> Str s);
                cacheKey = tag @ '':'' @ value @ '':'' @ ToString page @ '':'' @ ToString limit
            in (case cache_get (cache srv) now cacheKey of
                  Some cachedResult \<Rightarrow> (Http 200 cachedResult, srv)
                | None \<Rightarrow>
                    (let result = filtered (colleges srv) value;
                         response = build_response result page limit
                            (Num (ToNumber page)) (Num (ToNumber limit))
                     in (Http 200 (Page response),
                         srv\<lparr>cache := cache_set (cache srv) now cacheKey (Page response)\<rparr>)))))"

definition state_handler :: "nat \<Rightarrow> server \<Rightarrow> request \<Rightarrow> http \<times> server" where
  "state_handler = filtered_handler ''state'' state_result"

definition district_handler :: "nat \<Rightarrow> server \<Rightarrow> request \<Rightarrow> http \<times> server" where
  "district_handler = filtered_handler ''district'' district_result"

text \<open>\<^verbatim>\<open>GET /allstates\<close> and \<^verbatim>\<open>GET /districts/:state\<close>\<close>

definition allstates_handler :: "nat \<Rightarrow> server \<Rightarrow> http \<times> server" where
  "allstates_handler now srv =
     (let cacheKey = ''allstates''
      in (case cache_get (cache srv) now cacheKey of
            Some cachedResult \<Rightarrow> (Http 200 cachedResult, srv)
          | None \<Rightarrow>
              (let result = allstates (colleges srv)
               in (Http 200 (Names result),
                   srv\<lparr>cache := cache_set (cache srv) now cacheKey (Names result)\<rparr>))))"

definition districts_handler :: "nat \<Rightarrow> server \<Rightarrow> request \<Rightarrow> http \<times> server" where
  "districts_handler now srv req =
     (let cacheKey = ''districts:'' @ param req
      in (case cache_get (cache srv) now cacheKey of
            Some cachedResult \<Rightarrow> (Http 200 cachedResult, srv)
          | None \<Rightarrow>
              (let result = districts (colleges srv) (param req)
               in (Http 200 (Names result),
                   srv\<lparr>cache := cache_set (cache srv) now cacheKey (Names result)\<rparr>))))"

section \<open>Requests in the course of the load\<close>

text \<open>
  The routes of the application, and the dispatch of a request to its handler.
\<close>

datatype call =
    Root
  | Colleges_total
  | Colleges_search request
  | Colleges_state request
  | Colleges_district request
  | Allstates
  | Districts request

fun handle :: "nat \<Rightarrow> server \<Rightarrow> call \<Rightarrow> http \<times> server" where
  "handle now srv Root = (Http 200 (Text ''Colleges API : Developed by PrasadBobby''), srv)"
| "handle now srv Colleges_total = total_handler srv"
| "handle now srv (Colleges_search req) = search_handler now srv req"
| "handle now srv (Colleges_state req) = state_handler now srv req"
| "handle now srv (Colleges_district req) = district_handler now srv req"
| "handle now srv Allstates = allstates_handler now srv"
| "handle now srv (Districts req) = districts_handler now srv req"

text \<open>
  The process starts with an empty array, opens the CSV stream and calls
  \<^verbatim>\<open>app.listen\<close> at once. From then on the event loop runs callbacks one at a time:
  \<^verbatim>\<open>data\<close> callbacks, each pushing one row, the \<^verbatim>\<open>end\<close> callback, which only
  writes to the log, and request handlers. The stream delivers the file in chunks, so a
  request that arrives between two chunks is handled between the rows of the one and the
  rows of the other.
\<close>

datatype event = Data college | End | Incoming nat call

definition initial :: server where
  "initial = \<lparr>colleges = [], cache = Map.empty\<rparr>"

fun step :: "server \<Rightarrow> event \<Rightarrow> http option \<times> server" where
  "step srv (Data row) = (None, srv\<lparr>colleges := colleges srv @ [row]\<rparr>)"
| "step srv End = (None, srv)"
| "step srv (Incoming now c) = (Some (fst (handle now srv c)), snd (handle now srv c))"

text \<open>The state after a sequence of events, and the responses sent in its course.\<close>

fun exec :: "server \<Rightarrow> event list \<Rightarrow> server" where
  "exec srv [] = srv"
| "exec srv (e # es) = exec (snd (step srv e)) es"

fun run :: "server \<Rightarrow> event list \<Rightarrow> http list" where
  "run srv [] = []"
| "run srv (e # es) =
     (case fst (step srv e) of
        None \<Rightarrow> run (snd (step srv e)) es
      | Some r \<Rightarrow> r # run (snd (step srv e)) es)"

text \<open>
  The rows that a sequence of events delivers, and whether it delivers none (the load is
  over).
\<close>

fun rows :: "event list \<Rightarrow> college list" where
  "rows [] = []"
| "rows (Data row # es) = row # rows es"
| "rows (e # es) = rows es"

fun loading_over :: "event list \<Rightarrow> bool" where
  "loading_over [] = True"
| "loading_over (Data row # es) = False"
| "loading_over (e # es) = loading_over es"

section \<open>Rows as objects in a store\<close>

text \<open>
  In the program a row is an object, and the array \<^verbatim>\<open>colleges\<close> holds references to
  the rows. Here the store is the list of all objects and a reference is an index into it.
  \<^verbatim>\<open>filter\<close> returns the references that pass the test;
  \<^verbatim>\<open>map(college => ({ ...college, name: ... }))\<close> allocates for each of them a new
  object behind the objects that exist, and returns the new references and the store.
\<close>

type_synonym ref = nat

definition filter_refs :: "(college \<Rightarrow> bool) \<Rightarrow> college list \<Rightarrow> ref list \<Rightarrow> ref list" where
  "filter_refs P store refs = filter (\<lambda>r. P (store ! r)) refs"

fun spread_map :: "college list \<Rightarrow> ref list \<Rightarrow> ref list \<times> college list" where
  "spread_map store [] = ([], store)"
| "spread_map store (r # rs) =
     (let copy = clean_copy (store ! r);
          (refs, store') = spread_map (store @ [copy]) rs
      in (length store # refs, store'))"

definition filter_map_refs ::
  "(college \<Rightarrow> bool) \<Rightarrow> college list \<Rightarrow> ref list \<Rightarrow> ref list \<times> college list" where
  "filter_map_refs P store dataset = spread_map store (filter_refs P store dataset)"

section \<open>Example data\<close>

definition scenario :: "college list" where
  "scenario =
     [\<lparr>name = ''ABC College (Id:12)'', state = ''X'', district = ''D1'', columns = []\<rparr>,
      \<lparr>name = ''XYZ Inst'', state = ''X'', district = ''D2'', columns = []\<rparr>,
      \<lparr>name = ''ABC Tech'', state = ''Y'', district = ''D3'', columns = []\<rparr>]"


definition fresh_server :: server where
  "fresh_server = \<lparr>colleges = scenario, cache = Map.empty\<rparr>"

definition search_page_number :: request where
  "search_page_number =
     \<lparr>body = [''keyword'' \<mapsto> Str ''abc'', ''page'' \<mapsto> Num (Fin 1)], query = Map.empty, param = []\<rparr>"

definition search_page_string :: request where
  "search_page_string =
     \<lparr>body = [''keyword'' \<mapsto> Str ''abc'', ''page'' \<mapsto> Str ''1''], query = Map.empty, param = []\<rparr>"

definition state_limit_zero :: request where
  "state_limit_zero = \<lparr>body = Map.empty, query = [''limit'' \<mapsto> ''0''], param = ''X''\<rparr>"

definition state_page_abc :: request where
  "state_page_abc = \<lparr>body = Map.empty, query = [''page'' \<mapsto> ''abc''], param = ''X''\<rparr>"

definition search_limit_zero :: request where
  "search_limit_zero =
     \<lparr>body = [''keyword'' \<mapsto> Str ''abc'', ''limit'' \<mapsto> Num (Fin 0)], query = Map.empty, param = []\<rparr>"

definition row1 :: college where
  "row1 = \<lparr>name = ''ABC College (Id:12)'', state = ''X'', district = ''D1'', columns = []\<rparr>"

definition row2 :: college where
  "row2 = \<lparr>name = ''XYZ Inst'', state = ''X'', district = ''D2'', columns = []\<rparr>"

section \<open>Properties of the name normalizer\<close>

subsection \<open>The colon pattern\<close>





lemma strip_annotation_absent:
  "\<not> annotation_present s \<Longrightarrow> strip_annotation s = s"
  by (induction s) (auto split: option.splits)

lemma star_close_strip_annotation:
  "star_close cs = None \<Longrightarrow> star_close (strip_annotation cs) = None"
proof (induction cs rule: strip_annotation.induct)
  case 1
  show ?case by simp
next
  case (2 c cs)
  then show ?case
    by (cases "c = CHR '':''") (auto split: if_splits option.splits)
qed

lemma strip_annotation_clears: "\<not> annotation_present (strip_annotation s)"
proof (induction s rule: strip_annotation.induct)
  case 1
  show ?case by simp
next
  case (2 c cs)
  then show ?case
    by (auto split: option.splits dest: star_close_strip_annotation)
qed

subsection \<open>Skeletons\<close>

lemma skeleton_Cons:
  "skeleton (c # cs) =
     (if c = CHR '':'' \<or> c = CHR '')'' \<or> c = CHR ''>'' then c # skeleton cs else skeleton cs)"
  by (simp add: skeleton_def)

lemma star_close_skeleton:
  "(star_close (skeleton cs) = None) = (star_close cs = None)"
  by (induction cs) (auto simp: skeleton_def split: option.splits)

lemma annotation_present_skeleton:
  "annotation_present (skeleton s) = annotation_present s"
proof (induction s)
  case Nil
  show ?case by (simp add: skeleton_def)
next
  case (Cons c cs)
  show ?case
    using Cons star_close_skeleton [of cs] by (auto simp: skeleton_Cons)
qed

lemma skeleton_marker:
  assumes "is_id_marker a b c"
  shows "skeleton (a # b # c # cs) = skeleton cs"
proof -
  from assms have "a = CHR ''(''" and "b = CHR ''I'' \<or> b = CHR ''i''"
    and "c = CHR ''d'' \<or> c = CHR ''D''"
    by (simp_all add: is_id_marker_def)
  then show ?thesis
    by (elim disjE) (simp_all add: skeleton_Cons)
qed

lemma skeleton_strip_id: "skeleton (strip_id s) = skeleton s"
proof (induction s rule: strip_id.induct)
  case (1 a b c cs)
  show ?case
  proof (cases "is_id_marker a b c")
    case True
    with 1 show ?thesis by (simp add: skeleton_marker)
  next
    case False
    with 1 show ?thesis by (simp add: skeleton_Cons [of a])
  qed
qed simp_all

lemma is_space_not_skeleton:
  assumes "is_space c"
  shows "c \<noteq> CHR '':''" and "c \<noteq> CHR '')''" and "c \<noteq> CHR ''>''"
  using assms by (auto simp: is_space_def)

lemma skeleton_dropWhile: "skeleton (dropWhile is_space s) = skeleton s"
proof (induction s)
  case Nil
  show ?case by simp
next
  case (Cons c cs)
  show ?case
  proof (cases "is_space c")
    case True
    with Cons is_space_not_skeleton [of c] show ?thesis
      by (simp add: skeleton_Cons)
  next
    case False
    then show ?thesis by simp
  qed
qed

lemma skeleton_rev: "skeleton (rev s) = rev (skeleton s)"
  by (simp add: skeleton_def rev_filter)

lemma skeleton_trim: "skeleton (trim s) = skeleton s"
  by (simp add: trim_def skeleton_rev skeleton_dropWhile)

subsection \<open>Trimming\<close>

lemma trim_head: "trim s \<noteq> [] \<Longrightarrow> \<not> is_space (hd (trim s))"
proof -
  assume ne: "trim s \<noteq> []"
  let ?u = "dropWhile is_space s"
  have split: "?u = trim s @ rev (takeWhile is_space (rev ?u))"
    unfolding trim_def
    by (metis rev_append rev_rev_ident takeWhile_dropWhile_id)
  from ne split have "hd (trim s) = hd ?u" and "?u \<noteq> []"
    by (metis hd_append2, metis append_is_Nil_conv)
  then show ?thesis
    by (metis hd_dropWhile)
qed

lemma trim_trim: "trim (trim s) = trim s"
proof (cases "trim s = []")
  case True
  have "trim [] = []"
    by (simp add: trim_def)
  with True show ?thesis by simp
next
  case False
  then have "dropWhile is_space (trim s) = trim s"
    using trim_head [of s] by (simp add: dropWhile_eq_self_iff)
  then have "trim (trim s) = rev (dropWhile is_space (rev (trim s)))"
    by (simp add: trim_def)
  also have "\<dots> = trim s"
    unfolding trim_def by (simp only: rev_rev_ident dropWhile_idem)
  finally show ?thesis .
qed

lemma trim_length: "length (trim s) \<le> length s"
proof -
  have "length (trim s) \<le> length (dropWhile is_space s)"
    unfolding trim_def by (metis length_dropWhile_le length_rev)
  then show ?thesis
    using length_dropWhile_le [of is_space s] by linarith
qed

subsection \<open>The marker pattern\<close>

lemma strip_id_absent: "\<not> marker_present s \<Longrightarrow> strip_id s = s"
  by (induction s rule: strip_id.induct) auto

lemma strip_id_length: "length (strip_id s) \<le> length s"
  by (induction s rule: strip_id.induct) auto

lemma strip_id_shorter: "marker_present s \<Longrightarrow> length (strip_id s) < length s"
  by (induction s rule: strip_id.induct)
    (auto simp: less_Suc_eq_le strip_id_length intro: le_trans [OF strip_id_length])


subsection \<open>The normalizer\<close>

lemma clean_no_annotation: "\<not> annotation_present (cleanCollegeName s)"
proof -
  have "skeleton (cleanCollegeName s) = skeleton (strip_annotation s)"
    by (simp add: cleanCollegeName_def skeleton_trim skeleton_strip_id)
  then show ?thesis
    by (metis annotation_present_skeleton strip_annotation_clears)
qed

lemma clean_trimmed: "trim (cleanCollegeName s) = cleanCollegeName s"
  by (simp add: cleanCollegeName_def trim_trim)

section \<open>Claims about the name normalizer\<close>




text \<open>
  Claim C8, as the code has it. Normalizing a second time changes nothing exactly when the
  normalized name holds no \<^verbatim>\<open>(Id\<close> marker. The colon pattern never matches in a
  normalized name and the name is already trimmed, but deleting a marker can put a new one
  together from the text around it, and the second pass deletes that one.
\<close>

theorem cleanCollegeName_idempotent_iff:
  "cleanCollegeName (cleanCollegeName s) = cleanCollegeName s
     \<longleftrightarrow> \<not> marker_present (cleanCollegeName s)"
proof -
  let ?r = "cleanCollegeName s"
  have first: "strip_annotation ?r = ?r"
    by (rule strip_annotation_absent) (rule clean_no_annotation)
  show ?thesis
  proof
    assume eq: "cleanCollegeName ?r = ?r"
    show "\<not> marker_present ?r"
    proof
      assume "marker_present ?r"
      then have "length (strip_id ?r) < length ?r"
        by (rule strip_id_shorter)
      moreover have "length (cleanCollegeName ?r) \<le> length (strip_id ?r)"
        using first trim_length [of "strip_id ?r"] by (simp add: cleanCollegeName_def)
      ultimately show False
        using eq by simp
    qed
  next
    assume "\<not> marker_present ?r"
    then have "strip_id ?r = ?r"
      by (rule strip_id_absent)
    then show "cleanCollegeName ?r = ?r"
      using first clean_trimmed [of s] by (simp add: cleanCollegeName_def)
  qed
qed

theorem cleanCollegeName_idempotent_witness:
  "cleanCollegeName (cleanCollegeName ''ABC College (Id:12)'') = cleanCollegeName ''ABC College (Id:12)''
   \<and> cleanCollegeName ''ABC College (Id:12)'' = ''ABC College''"
  using cleanCollegeName_idempotent_iff [of "''ABC College (Id:12)''"]
  by (simp add: cleanCollegeName_def trim_def is_space_def is_id_marker_def)

text \<open>
  \<^verbatim>\<open>((IdId\<close> normalizes to \<^verbatim>\<open>(Id\<close>, which normalizes to the empty string.
\<close>

theorem cleanCollegeName_idempotent_counterexample:
  "cleanCollegeName ''((IdId'' = ''(Id''
   \<and> cleanCollegeName (cleanCollegeName ''((IdId'') = []"
  by (simp add: cleanCollegeName_def trim_def is_space_def is_id_marker_def)

section \<open>Properties of the query engine\<close>

subsection \<open>Substrings\<close>

lemma str_includes_sublist: "str_includes s t = sublist t s"
  by (induction s) (auto simp: sublist_Cons_right)

lemma sublist_map_iff:
  "sublist (map f k) (map f n) \<longleftrightarrow> (\<exists>sub. sublist sub n \<and> map f sub = map f k)"
proof
  assume "sublist (map f k) (map f n)"
  then obtain ps ss where "map f n = ps @ map f k @ ss"
    by (auto simp: sublist_def)
  then obtain n1 n2 n3 where "n = n1 @ n2 @ n3" and "map f n2 = map f k"
    by (metis map_eq_append_conv)
  then show "\<exists>sub. sublist sub n \<and> map f sub = map f k"
    by (auto simp: sublist_def)
next
  assume "\<exists>sub. sublist sub n \<and> map f sub = map f k"
  then obtain sub ps ss where "n = ps @ sub @ ss" and "map f sub = map f k"
    by (auto simp: sublist_def)
  then have "map f n = map f ps @ map f k @ map f ss"
    by simp
  then show "sublist (map f k) (map f n)"
    unfolding sublist_def by blast
qed

subsection \<open>Sets of strings\<close>

lemma set_foldl_set_add: "set (foldl set_add acc xs) = set acc \<union> set xs"
  by (induction xs arbitrary: acc) (auto simp: set_add_def)

lemma distinct_foldl_set_add: "distinct acc \<Longrightarrow> distinct (foldl set_add acc xs)"
  by (induction xs arbitrary: acc) (auto simp: set_add_def)

lemma set_new_Set: "set (new_Set xs) = set xs"
  by (simp add: new_Set_def set_foldl_set_add)

lemma distinct_new_Set: "distinct (new_Set xs)"
  by (simp add: new_Set_def distinct_foldl_set_add)

subsection \<open>Slices and pages\<close>








section \<open>Claims about the query engine\<close>

text \<open>
  Claim C6. The search keeps, in the order of the dataset, exactly the rows whose name has
  a substring that equals the keyword once both are in lower case, and gives each kept row
  the normalized name. The keywords \<^verbatim>\<open>abc\<close> and \<^verbatim>\<open>ABC\<close> give the same result on
  every dataset.
\<close>

theorem search_result_case_insensitive:
  "search_result cs keyword =
     map (\<lambda>college. college\<lparr>name := cleanCollegeName (name college)\<rparr>)
       (filter (\<lambda>college. \<exists>sub. sublist sub (name college) \<and> toLowerCase sub = toLowerCase keyword)
          cs)
   \<and> search_result cs ''abc'' = search_result cs ''ABC''"
proof
  have "\<And>n. str_includes (toLowerCase n) (toLowerCase keyword)
      = (\<exists>sub. sublist sub n \<and> toLowerCase sub = toLowerCase keyword)"
    unfolding toLowerCase_def str_includes_sublist by (rule sublist_map_iff)
  then show "search_result cs keyword =
     map (\<lambda>college. college\<lparr>name := cleanCollegeName (name college)\<rparr>)
       (filter (\<lambda>college. \<exists>sub. sublist sub (name college) \<and> toLowerCase sub = toLowerCase keyword)
          cs)"
    by (simp add: search_result_def clean_copy_def)
  have "toLowerCase ''abc'' = toLowerCase ''ABC''"
    by (simp add: toLowerCase_def toLowerCase_char_def char_of_def)
  then show "search_result cs ''abc'' = search_result cs ''ABC''"
    by (simp add: search_result_def)
qed

text \<open>On the example data, \<^verbatim>\<open>ABC\<close> finds the two rows that \<^verbatim>\<open>abc\<close> finds.\<close>

theorem search_result_case_insensitive_witness:
  "map name (search_result scenario ''ABC'') = [''ABC College'', ''ABC Tech'']"
proof -
  have "map name (search_result scenario ''abc'') = [''ABC College'', ''ABC Tech'']"
    by (simp add: search_result_def scenario_def toLowerCase_def toLowerCase_char_def char_of_def
        clean_copy_def cleanCollegeName_def trim_def is_space_def is_id_marker_def)
  moreover have "search_result scenario ''abc'' = search_result scenario ''ABC''"
    using search_result_case_insensitive [of scenario "''abc''"] by (rule conjunct2)
  ultimately show ?thesis
    by simp
qed

text \<open>
  Claim C9. The listing of states holds exactly the state values of the dataset, as they are
  stored, each once, in ascending lexicographic order; the listing of districts for a state
  holds exactly the district values of the rows whose state equals the argument once both
  are in lower case, each once, in ascending lexicographic order.
\<close>

theorem distinct_listings:
  "set (allstates cs) = state ` set cs
   \<and> distinct (allstates cs)
   \<and> sorted (allstates cs)
   \<and> set (districts cs st) =
       district ` {college \<in> set cs. toLowerCase (state college) = toLowerCase st}
   \<and> distinct (districts cs st)
   \<and> sorted (districts cs st)"
  by (simp add: allstates_def districts_def set_new_Set distinct_new_Set)

theorem distinct_listings_witness:
  "allstates scenario = [''X'', ''Y''] \<and> districts scenario ''x'' = [''D1'', ''D2'']"
proof -
  have "allstates scenario = [''X'', ''Y'']"
    by (simp add: allstates_def scenario_def new_Set_def set_add_def)
  moreover have "districts scenario ''x'' = [''D1'', ''D2'']"
    by (simp add: districts_def scenario_def new_Set_def set_add_def toLowerCase_def
        toLowerCase_char_def char_of_def)
  ultimately show ?thesis
    using distinct_listings [of scenario "''x''"] by simp
qed





section \<open>Properties of the routes\<close>

subsection \<open>What a handler computes\<close>

text \<open>
  On a request that passes the validation and misses the cache, the search route answers
  with the response built from the search for the trimmed keyword, and the state and
  district routes with the response built from their filter for the route parameter.
\<close>

lemma optional_isInt_keyword:
  "field \<noteq> ''keyword'' \<Longrightarrow>
     optional_isInt field lo hi (req\<lparr>body := (body req)(''keyword'' \<mapsto> v)\<rparr>)
       = optional_isInt field lo hi req"
  by (simp add: optional_isInt_def)

lemma search_handler_miss:
  assumes "body req ''keyword'' = Some (Str kw)" and "trim kw \<noteq> []"
    and "optional_isInt ''page'' (Some 1) None req = []"
    and "optional_isInt ''limit'' (Some 1) (Some 100) req = []"
    and "pv = (case body req ''page'' of None \<Rightarrow> Num (Fin 1) | Some v \<Rightarrow> v)"
    and "lv = (case body req ''limit'' of None \<Rightarrow> Num (Fin 10) | Some v \<Rightarrow> v)"
    and "cache_get (cache srv) now (''search:'' @ trim kw @ '':'' @ ToString pv @ '':'' @ ToString lv) = None"
  shows "fst (search_handler now srv req) =
     Http 200 (Page (build_response (search_result (colleges srv) (trim kw)) pv lv pv lv))"
  using assms
  by (simp add: search_handler_def keyword_chain_def optional_isInt_keyword ToString_def Let_def)

lemma filtered_handler_miss:
  assumes "body req ''page'' = None" and "body req ''limit'' = None"
    and "pv = (case query req ''page'' of None \<Rightarrow> Num (Fin 1) | Some s \<Rightarrow> Str s)"
    and "lv = (case query req ''limit'' of None \<Rightarrow> Num (Fin 10) | Some s \<Rightarrow> Str s)"
    and "cache_get (cache srv) now (tag @ '':'' @ param req @ '':'' @ ToString pv @ '':'' @ ToString lv) = None"
  shows "fst (filtered_handler tag filtered now srv req) =
     Http 200 (Page (build_response (filtered (colleges srv) (param req)) pv lv
       (Num (ToNumber pv)) (Num (ToNumber lv))))"
  using assms
  by (simp add: filtered_handler_def optional_isInt_def Let_def)

subsection \<open>Handlers keep the dataset\<close>

lemma search_handler_colleges: "colleges (snd (search_handler now srv req)) = colleges srv"
  by (simp add: search_handler_def Let_def split: prod.splits option.splits jsval.splits)

lemma filtered_handler_colleges:
  "colleges (snd (filtered_handler tag f now srv req)) = colleges srv"
  by (simp add: filtered_handler_def Let_def split: option.splits)

lemma allstates_handler_colleges: "colleges (snd (allstates_handler now srv)) = colleges srv"
  by (simp add: allstates_handler_def Let_def split: option.splits)

lemma districts_handler_colleges: "colleges (snd (districts_handler now srv req)) = colleges srv"
  by (simp add: districts_handler_def Let_def split: option.splits)

lemma handle_colleges: "colleges (snd (handle now srv c)) = colleges srv"
  by (cases c)
    (simp_all add: total_handler_def search_handler_colleges state_handler_def
      district_handler_def filtered_handler_colleges allstates_handler_colleges
      districts_handler_colleges)

lemma colleges_exec: "colleges (exec srv es) = colleges srv @ rows es"
proof (induction es arbitrary: srv)
  case Nil
  show ?case by simp
next
  case (Cons e es)
  show ?case
    by (cases e) (simp_all add: Cons handle_colleges)
qed

lemma rows_append: "rows (es @ fs) = rows es @ rows fs"
  by (induction es rule: rows.induct) simp_all

lemma rows_loading_over: "loading_over es \<Longrightarrow> rows es = []"
  by (induction es rule: rows.induct) simp_all

lemma run_append: "run srv (es @ fs) = run srv es @ run (exec srv es) fs"
  by (induction es arbitrary: srv) (simp_all split: option.splits)

subsection \<open>The store\<close>

lemma spread_map_store:
  "\<forall>r\<in>set rs. r < length store \<Longrightarrow>
     snd (spread_map store rs) = store @ map (\<lambda>r. clean_copy (store ! r)) rs"
proof (induction rs arbitrary: store)
  case Nil
  show ?case by simp
next
  case (Cons r rs)
  have "\<forall>q\<in>set rs. q < length (store @ [clean_copy (store ! r)])"
    using Cons.prems by auto
  then have "snd (spread_map (store @ [clean_copy (store ! r)]) rs)
      = (store @ [clean_copy (store ! r)])
        @ map (\<lambda>q. clean_copy ((store @ [clean_copy (store ! r)]) ! q)) rs"
    by (rule Cons.IH)
  moreover have "map (\<lambda>q. clean_copy ((store @ [clean_copy (store ! r)]) ! q)) rs
      = map (\<lambda>q. clean_copy (store ! q)) rs"
    using Cons.prems by (simp add: nth_append)
  ultimately show ?case
    by (simp add: Let_def case_prod_beta)
qed

lemma spread_map_refs:
  "fst (spread_map store rs) = [length store ..< length store + length rs]"
proof (induction rs arbitrary: store)
  case Nil
  show ?case by simp
next
  case (Cons r rs)
  have "fst (spread_map store (r # rs)) = length store # [Suc (length store) ..< Suc (length store) + length rs]"
    by (simp add: Let_def case_prod_beta Cons)
  also have "\<dots> = [length store ..< length store + length (r # rs)]"
    using upt_conv_Cons [of "length store" "length store + length (r # rs)"] by simp
  finally show ?case .
qed

lemma filter_refs_values:
  "map (nth store) (filter_refs P store dataset) = filter P (map (nth store) dataset)"
  by (simp add: filter_refs_def filter_map comp_def)

lemma filtered_subset:
  assumes "r \<in> set (paginate (map clean_copy (filter P cs)) pv lv)"
  shows "\<exists>c\<in>set cs. P c \<and> r = clean_copy c"
proof -
  have "set (paginate (map clean_copy (filter P cs)) pv lv) \<subseteq> set (map clean_copy (filter P cs))"
    unfolding paginate_def slice_def Let_def
    by (meson set_take_subset set_drop_subset subset_trans)
  with assms show ?thesis
    by auto
qed

subsection \<open>Evaluation on the example data\<close>

lemma math_ceil_div_Fin:
  "math_ceil_div n (Fin l) =
     (if l = 0 then (if n = 0 then NaN else PosInfinity) else Fin (- (- int n div l)))"
  using ceiling_divide_eq_div [of "int n" l, where ?'a = real]
  by (simp add: math_ceil_div_def)

lemma scenario_abc:
  "search_result scenario ''abc'' =
     [\<lparr>name = ''ABC College'', state = ''X'', district = ''D1'', columns = []\<rparr>,
      \<lparr>name = ''ABC Tech'', state = ''Y'', district = ''D3'', columns = []\<rparr>]"
  by (simp add: search_result_def scenario_def toLowerCase_def toLowerCase_char_def char_of_def
      clean_copy_def cleanCollegeName_def trim_def is_space_def is_id_marker_def)

lemma scenario_X:
  "state_result scenario ''X'' =
     [\<lparr>name = ''ABC College'', state = ''X'', district = ''D1'', columns = []\<rparr>,
      \<lparr>name = ''XYZ Inst'', state = ''X'', district = ''D2'', columns = []\<rparr>]"
  by (simp add: state_result_def scenario_def toLowerCase_def toLowerCase_char_def char_of_def
      clean_copy_def cleanCollegeName_def trim_def is_space_def is_id_marker_def)

lemma ToNumber_examples:
  "ToNumber (Str ''0'') = Fin 0" "ToNumber (Str ''1'') = Fin 1" "ToNumber (Str ''abc'') = NaN"
  "ToNumber (Num x) = x"
  by (simp_all add: ToNumber_def string_to_number_def trim_def is_space_def all_digits_def
      is_digit_def digits_value_def)

lemma ToString_examples:
  "ToString (Str s) = s" "ToString (Num (Fin 0)) = ''0''" "ToString (Num (Fin 1)) = ''1''"
  "ToString (Num (Fin 10)) = ''10''"
  by (simp_all add: ToString_def number_to_string_def show_nat.simps digit_char_def char_of_def)

lemma isInt_examples:
  "isInt (Some 1) None ''1''" "\<not> isInt (Some 1) (Some 100) ''0''"
  by (simp_all add: isInt_def all_digits_def is_digit_def digits_value_def)

lemma trim_abc: "trim ''abc'' = ''abc''"
  by (simp add: trim_def is_space_def)

lemmas eval_simps =
  fresh_server_def search_handler_def filtered_handler_def state_handler_def
  keyword_chain_def optional_isInt_def cache_get_def cache_set_def stdTTL_def
  build_response_def paginate_def slice_def relative_index_def math_ceil_div_Fin
  ToNumber_examples ToString_examples isInt_examples trim_abc scenario_abc scenario_X Let_def

section \<open>Claims about the routes\<close>

text \<open>
  Claim C10. No handler changes the dataset. In the store, the filter and the copy leave
  every object that existed as it was, the name included; the objects of the result are
  new ones, behind those that existed, and hold the copies with the normalized name. A
  row of a returned page of the search, state or district filter has the state, the
  district and the other columns of a row of the dataset, and the normalized name of that
  row.
\<close>

theorem dataset_unmodified:
  assumes "\<forall>r\<in>set dataset. r < length store"
  shows "take (length store) (snd (filter_map_refs P store dataset)) = store
     \<and> (\<forall>r\<in>set (fst (filter_map_refs P store dataset)). length store \<le> r)
     \<and> map (nth (snd (filter_map_refs P store dataset))) (fst (filter_map_refs P store dataset))
         = map clean_copy (filter P (map (nth store) dataset))
     \<and> colleges (snd (handle now srv c)) = colleges srv
     \<and> (\<forall>r\<in>set (paginate (search_result cs keyword) pv lv) \<union> set (paginate (state_result cs st) pv lv)
            \<union> set (paginate (district_result cs d) pv lv).
          \<exists>c\<in>set cs. state r = state c \<and> district r = district c \<and> columns r = columns c
            \<and> name r = cleanCollegeName (name c))"
proof (intro conjI)
  let ?sel = "filter_refs P store dataset"
  have sel: "\<forall>r\<in>set ?sel. r < length store"
    using assms by (simp add: filter_refs_def)
  then have store': "snd (filter_map_refs P store dataset)
      = store @ map (\<lambda>r. clean_copy (store ! r)) ?sel"
    unfolding filter_map_refs_def by (rule spread_map_store)
  then show "take (length store) (snd (filter_map_refs P store dataset)) = store"
    by simp
  have refs: "fst (filter_map_refs P store dataset) = [length store ..< length store + length ?sel]"
    unfolding filter_map_refs_def by (rule spread_map_refs)
  then show "\<forall>r\<in>set (fst (filter_map_refs P store dataset)). length store \<le> r"
    by simp
  have "map (nth (snd (filter_map_refs P store dataset))) (fst (filter_map_refs P store dataset))
      = map (\<lambda>r. clean_copy (store ! r)) ?sel"
    unfolding store' refs by (rule nth_equalityI) (simp_all add: nth_append)
  also have "\<dots> = map clean_copy (map (nth store) ?sel)"
    by simp
  also have "\<dots> = map clean_copy (filter P (map (nth store) dataset))"
    by (simp only: filter_refs_values)
  finally show "map (nth (snd (filter_map_refs P store dataset))) (fst (filter_map_refs P store dataset))
      = map clean_copy (filter P (map (nth store) dataset))" .
  show "colleges (snd (handle now srv c)) = colleges srv"
    by (rule handle_colleges)
  show "\<forall>r\<in>set (paginate (search_result cs keyword) pv lv) \<union> set (paginate (state_result cs st) pv lv)
            \<union> set (paginate (district_result cs d) pv lv).
          \<exists>c\<in>set cs. state r = state c \<and> district r = district c \<and> columns r = columns c
            \<and> name r = cleanCollegeName (name c)"
  proof
    fix r
    assume "r \<in> set (paginate (search_result cs keyword) pv lv) \<union> set (paginate (state_result cs st) pv lv)
            \<union> set (paginate (district_result cs d) pv lv)"
    then obtain c where "c \<in> set cs" and "r = clean_copy c"
      unfolding search_result_def state_result_def district_result_def
      by (auto dest: filtered_subset)
    then show "\<exists>c\<in>set cs. state r = state c \<and> district r = district c \<and> columns r = columns c
            \<and> name r = cleanCollegeName (name c)"
      by (auto simp: clean_copy_def)
  qed
qed

text \<open>
  The three example rows as the objects 0, 1 and 2: the filter for state \<^verbatim>\<open>X\<close> makes
  the objects 3 and 4 and leaves the first three as they were.
\<close>

theorem dataset_unmodified_witness:
  "take (length scenario) (snd (filter_map_refs (\<lambda>college. state college = ''X'') scenario [0, 1, 2]))
     = scenario
   \<and> fst (filter_map_refs (\<lambda>college. state college = ''X'') scenario [0, 1, 2]) = [3, 4]"
proof -
  have valid: "\<forall>r\<in>set [0, 1, 2 :: nat]. r < length scenario"
    by (simp add: scenario_def)
  have "take (length scenario) (snd (filter_map_refs (\<lambda>college. state college = ''X'') scenario [0, 1, 2]))
     = scenario"
    using dataset_unmodified [OF valid] by (rule conjunct1)
  moreover have "fst (filter_map_refs (\<lambda>college. state college = ''X'') scenario [0, 1, 2]) = [3, 4]"
    by (simp add: filter_map_refs_def filter_refs_def scenario_def Let_def)
  ultimately show ?thesis
    by simp
qed

text \<open>
  Claim C4, as the code has it. The server answers from the start, while rows are still
  being pushed. The handler of a request reads the rows delivered before the request: a
  prefix, in file order, of the rows of the whole file; it is the whole file when no row
  is delivered after the request. So a response is computed from the empty dataset, from
  the full one, or, in the course of the load, from a part of it.
\<close>

theorem handlers_read_a_prefix:
  "run initial (before @ Incoming now c # after) =
     run initial before @ fst (handle now (exec initial before) c)
       # run (snd (handle now (exec initial before) c)) after
   \<and> colleges (exec initial before) = rows before
   \<and> prefix (rows before) (rows (before @ Incoming now c # after))
   \<and> (loading_over after \<longrightarrow> rows before = rows (before @ Incoming now c # after))"
  by (simp add: run_append colleges_exec initial_def rows_append rows_loading_over)

text \<open>A request after the end of a load of two rows counts both.\<close>

theorem handlers_read_a_prefix_witness:
  "run initial ([Data row1, Data row2, End] @ Incoming 0 Colleges_total # []) = [Http 200 (Total 2)]"
  using handlers_read_a_prefix [of "[Data row1, Data row2, End]" 0 Colleges_total "[]"]
  by (simp add: total_handler_def)

text \<open>
  A request handled between the first row and the second counts one row: neither none,
  as for the empty dataset, nor two, as for the loaded file.
\<close>

theorem partial_load_counterexample:
  "run initial [Data row1, Incoming 0 Colleges_total, Data row2, End] = [Http 200 (Total 1)]
   \<and> rows [Data row1, Incoming 0 Colleges_total, Data row2, End] = [row1, row2]
   \<and> fst (total_handler \<lparr>colleges = [], cache = Map.empty\<rparr>) = Http 200 (Total 0)
   \<and> fst (total_handler \<lparr>colleges = [row1, row2], cache = Map.empty\<rparr>) = Http 200 (Total 2)"
  by (simp add: initial_def total_handler_def)

text \<open>
  Claim C3 fails on the state and district routes. Their validation chains check the
  fields \<^verbatim>\<open>page\<close> and \<^verbatim>\<open>limit\<close> of the body, while the handler reads them from
  the query string. \<^verbatim>\<open>GET /colleges/state/X?limit=0\<close> is answered with status 200,
  an empty page and \<^verbatim>\<open>totalPages\<close> infinite (\<^verbatim>\<open>null\<close> in JSON), and
  \<^verbatim>\<open>GET /colleges/state/X?page=abc\<close> with status 200, an empty page and the page
  \<^verbatim>\<open>NaN\<close>; the search route, which reads what it checks, rejects the limit 0 with
  status 400.
\<close>

theorem state_route_accepts_limit_zero:
  "fst (state_handler 0 fresh_server state_limit_zero) =
     Http 200 (Page \<lparr>data = [], page = Num (Fin 1), limit = Num (Fin 0), total = 2,
       totalPages = PosInfinity\<rparr>)
   \<and> fst (state_handler 0 fresh_server state_page_abc) =
     Http 200 (Page \<lparr>data = [], page = Num NaN, limit = Num (Fin 10), total = 2,
       totalPages = Fin 1\<rparr>)
   \<and> fst (search_handler 0 fresh_server search_limit_zero) = Http 400 (Errors [''limit''])"
  by (simp add: eval_simps state_limit_zero_def state_page_abc_def search_limit_zero_def)

text \<open>
  Claim C2 fails on the search route. The validation accepts a page given as the number
  \<^verbatim>\<open>1\<close> and as the string \<^verbatim>\<open>"1"\<close>; the cache key holds the text of the page,
  the same for both, while the response echoes the value as it came. After a request with
  the number, a request with the string is answered from the cache with the number, where
  the handler without the cache answers with the string. The state and district routes
  echo \<^verbatim>\<open>Number(page)\<close>, which the key determines.
\<close>

theorem search_cache_hit_differs:
  "fst (search_handler 1 (snd (search_handler 0 fresh_server search_page_number)) search_page_string) =
     Http 200 (Page \<lparr>data = search_result scenario ''abc'', page = Num (Fin 1),
       limit = Num (Fin 10), total = 2, totalPages = Fin 1\<rparr>)
   \<and> fst (search_handler 1 fresh_server search_page_string) =
     Http 200 (Page \<lparr>data = search_result scenario ''abc'', page = Str ''1'',
       limit = Num (Fin 10), total = 2, totalPages = Fin 1\<rparr>)"
  by (simp add: eval_simps search_page_number_def search_page_string_def)

end
